theory Spec2Isabelle
  imports Main "HOL-Library.Multiset"
begin

section \<open>Strings\<close>

text \<open>
  A JavaScript string is a sequence of UTF-16 code units. The sources compare, trim and
  search strings code unit by code unit, so a string is modelled as the list of its code
  units. The literals of the sources that are not ASCII are written out as code units,
  with an English gloss.
\<close>

type_synonym jstring = "nat list"

definition ascii :: "string \<Rightarrow> jstring" where
  "ascii s = map of_char s"

definition COMMA :: nat where "COMMA = 44"
definition QUOTE :: nat where "QUOTE = 34"
definition NEWLINE :: nat where "NEWLINE = 10"

section \<open>The data model (types.ts)\<close>

datatype AuditStatus = IDLE | PROCESSING | PASS | FAIL | WARNING | ERROR

datatype RuleCategory = text_editing | workflow_logic | result_determination | special_rules

datatype Severity = high | medium | low

record AuditIssue =
  rule :: jstring
  description :: jstring
  severity :: Severity
  location :: "jstring option"
  category :: RuleCategory

record AuditResult =
  status :: AuditStatus
  summary :: jstring
  issues :: "AuditIssue list"
  processedAt :: jstring

text \<open>The browser's File object: its name and an opaque handle to its bytes.\<close>

record File =
  name :: jstring
  handle :: nat

record DocFile =
  id_doc :: jstring
  file_doc :: File
  content :: jstring
  auditResult :: "AuditResult option"
  isProcessing :: bool

record RuleConfig =
  id_rule :: jstring
  text_rule :: jstring
  enabled :: bool
  category_rule :: RuleCategory

text \<open>The string value of an enum member, as the TypeScript enum declares it.\<close>

fun statusString :: "AuditStatus \<Rightarrow> jstring" where
  "statusString IDLE = ascii ''IDLE''"
| "statusString PROCESSING = ascii ''PROCESSING''"
| "statusString PASS = ascii ''PASS''"
| "statusString FAIL = ascii ''FAIL''"
| "statusString WARNING = ascii ''WARNING''"
| "statusString ERROR = ascii ''ERROR''"

section \<open>Rules and their active texts (Dashboard.tsx, processFile)\<close>

text \<open>\<^verbatim>\<open>rules.filter(r => r.enabled).map(r => r.text)\<close>\<close>

definition activeRuleTexts :: "RuleConfig list \<Rightarrow> jstring list" where
  "activeRuleTexts rules = map text_rule (filter enabled rules)"


text \<open>\<^verbatim>\<open>toggleRule\<close> and \<^verbatim>\<open>removeRule\<close>.\<close>

definition toggleRule :: "jstring \<Rightarrow> RuleConfig list \<Rightarrow> RuleConfig list" where
  "toggleRule i prev = map (\<lambda>r. if id_rule r = i then r\<lparr>enabled := \<not> enabled r\<rparr> else r) prev"

definition removeRule :: "jstring \<Rightarrow> RuleConfig list \<Rightarrow> RuleConfig list" where
  "removeRule i prev = filter (\<lambda>r. id_rule r \<noteq> i) prev"

section \<open>The write-back of a processed document (Dashboard.tsx, worker)\<close>

text \<open>
  \<^verbatim>\<open>setFiles(prev => prev.map(f => f.id === processed.id ? processed : f))\<close>:
  the only write path from a worker into the document list. The preview handler writes
  its document back with an update of the same form.
\<close>

definition complete :: "DocFile \<Rightarrow> DocFile list \<Rightarrow> DocFile list" where
  "complete processed prev = map (\<lambda>f. if id_doc f = id_doc processed then processed else f) prev"

text \<open>\<^verbatim>\<open>removeFile\<close>\<close>

definition removeFile :: "jstring \<Rightarrow> DocFile list \<Rightarrow> DocFile list" where
  "removeFile i prev = filter (\<lambda>f. id_doc f \<noteq> i) prev"

section \<open>CSV export (Dashboard.tsx, exportToCSV)\<close>

text \<open>\<^verbatim>\<open>stringText.replace(/"/g, '""')\<close>\<close>

definition doubleQuotes :: "jstring \<Rightarrow> jstring" where
  "doubleQuotes s = concat (map (\<lambda>c. if c = QUOTE then [QUOTE, QUOTE] else [c]) s)"

text \<open>
  The local function \<^verbatim>\<open>escape\<close>. The empty string is falsy, so the first test
  returns the empty string for it.
\<close>

definition escape :: "jstring \<Rightarrow> jstring" where
  "escape text =
     (if text = [] then []
      else if COMMA \<in> set text \<or> QUOTE \<in> set text \<or> NEWLINE \<in> set text
           then [QUOTE] @ doubleQuotes text @ [QUOTE]
           else text)"

text \<open>The byte order mark and the header line (eight column titles, in Chinese).\<close>

definition BOM :: jstring where
  "BOM = [65279]"

definition CSV_HEADER :: jstring where
  "CSV_HEADER = [25991, 20214, 21517, 44, 23457, 25209, 29366, 24577, 44, 25191, 34892,
     25688, 35201, 44, 38169, 35823, 20998, 31867, 44, 35268, 21017, 21517, 31216, 44,
     35814, 32454, 25551, 36848, 44, 20005, 37325, 31243, 24230, 44, 20301, 32622, 10]"

text \<open>
  The status label: "passed", "not passed", "warning" in Chinese, the enum's own string
  otherwise.
\<close>

definition statusLabel :: "AuditStatus \<Rightarrow> jstring" where
  "statusLabel st =
     (if st = PASS then [36890, 36807]
      else if st = FAIL then [19981, 36890, 36807]
      else if st = WARNING then [35686, 21578]
      else statusString st)"

text \<open>\<^verbatim>\<open>CATEGORY_MAP[c].label\<close>: the Chinese label of a category.\<close>

fun categoryLabel :: "RuleCategory \<Rightarrow> jstring" where
  "categoryLabel text_editing = [25991, 26412, 32534, 36753]"
| "categoryLabel workflow_logic = [27969, 36716, 36923, 36753]"
| "categoryLabel result_determination = [32467, 26524, 21028, 23450]"
| "categoryLabel special_rules = [29305, 27530, 35268, 21017]"

definition severityLabel :: "Severity \<Rightarrow> jstring" where
  "severityLabel s = (if s = high then [39640] else if s = medium then [20013] else [20302])"

definition commonData :: "DocFile \<Rightarrow> AuditResult \<Rightarrow> jstring" where
  "commonData d r =
     escape (name (file_doc d)) @ [COMMA] @ escape (statusLabel (status r)) @ [COMMA]
       @ escape (summary r)"

text \<open>\<^verbatim>\<open>issue.location || ''\<close>: a missing location counts as the empty string.\<close>

definition locationOrEmpty :: "AuditIssue \<Rightarrow> jstring" where
  "locationOrEmpty issue = (case location issue of None \<Rightarrow> [] | Some l \<Rightarrow> l)"

definition issueRow :: "DocFile \<Rightarrow> AuditResult \<Rightarrow> AuditIssue \<Rightarrow> jstring" where
  "issueRow d r issue =
     commonData d r @ [COMMA] @ escape (categoryLabel (category issue)) @ [COMMA]
       @ escape (rule issue) @ [COMMA] @ escape (description issue) @ [COMMA]
       @ escape (severityLabel (severity issue)) @ [COMMA] @ escape (locationOrEmpty issue)"

definition placeholderRow :: "DocFile \<Rightarrow> AuditResult \<Rightarrow> jstring" where
  "placeholderRow d r = commonData d r @ ascii '',,,,,''"

text \<open>
  The text handed to the Blob; \<open>None\<close> when the document has no verdict (the early
  return). The loop over the issues appends one line per issue to the accumulated text.
\<close>

definition exportToCSV :: "DocFile \<Rightarrow> jstring option" where
  "exportToCSV d =
     (case auditResult d of
        None \<Rightarrow> None
      | Some r \<Rightarrow>
          (let csvContent = BOM @ CSV_HEADER
           in if length (issues r) = 0
              then Some (csvContent @ placeholderRow d r @ [NEWLINE])
              else Some (foldl (\<lambda>acc issue. acc @ issueRow d r issue @ [NEWLINE])
                           csvContent (issues r))))"

text \<open>The data rows of the table, one list element per row.\<close>

definition csvRows :: "DocFile \<Rightarrow> AuditResult \<Rightarrow> jstring list" where
  "csvRows d r = (if issues r = [] then [placeholderRow d r] else map (issueRow d r) (issues r))"

text \<open>The fields of a row, joined by a separator.\<close>

fun joinWith :: "nat \<Rightarrow> jstring list \<Rightarrow> jstring" where
  "joinWith c [] = []"
| "joinWith c [x] = x"
| "joinWith c (x # y # ys) = x @ [c] @ joinWith c (y # ys)"

section \<open>The judgment client (auditService.ts, analyzeReport)\<close>

text \<open>
  A thrown JavaScript error: its \<^verbatim>\<open>name\<close> and its \<^verbatim>\<open>message\<close>
  (empty when the thrown value has none).
\<close>

record js_error =
  name_err :: jstring
  message :: jstring

text \<open>
  What the network does with one request: \<^verbatim>\<open>fetch\<close> rejects (network failure,
  or the 30 second abort signal fires), or it resolves with a response that carries
  \<^verbatim>\<open>ok\<close>, the status code in decimal, and what \<^verbatim>\<open>response.json()\<close> gives:
  a thrown error or the parsed verdict.
\<close>

datatype fetch_outcome =
    FetchThrows js_error
  | FetchResponse bool jstring "js_error + AuditResult"

text \<open>The message of the error thrown on a response that is not ok: "request failed [code]".\<close>

definition requestFailed :: "jstring \<Rightarrow> js_error" where
  "requestFailed code =
     \<lparr>name_err = ascii ''Error'',
      message = [35831, 27714, 22833, 36133, 21862, 32, 91] @ code @ ascii '']''\<rparr>"

text \<open>The \<^verbatim>\<open>try\<close> block: the result it returns, or the error it throws.\<close>

fun fetchResult :: "fetch_outcome \<Rightarrow> js_error + AuditResult" where
  "fetchResult (FetchThrows e) = Inl e"
| "fetchResult (FetchResponse ok code body) = (if \<not> ok then Inl (requestFailed code) else body)"

text \<open>
  The three messages of the \<^verbatim>\<open>catch\<close> block: "the audit service call failed, retry
  later" (the default), "the request timed out (document too large or network slow)",
  and the rule name "service call failed".
\<close>

definition MSG_SERVICE_FAILED :: jstring where
  "MSG_SERVICE_FAILED = [23457, 26680, 26381, 21153, 35843, 29992, 22833, 36133, 65292,
     35831, 31245, 21518, 37325, 35797]"

definition MSG_TIMEOUT :: jstring where
  "MSG_TIMEOUT = [35831, 27714, 36229, 26102, 21862, 65288, 25991, 26723, 22826, 22823,
     25110, 32593, 32476, 24930, 65289]"

definition RULE_SERVICE_FAILED :: jstring where
  "RULE_SERVICE_FAILED = [26381, 21153, 35843, 29992, 22833, 36133]"

definition errorMessageOf :: "js_error \<Rightarrow> jstring" where
  "errorMessageOf error =
     (if name_err error = ascii ''AbortError'' then MSG_TIMEOUT
      else if message error \<noteq> [] then message error
      else MSG_SERVICE_FAILED)"

text \<open>
  \<open>net\<close> is the network seen from the client, \<open>now\<close> the clock's ISO string at the
  time the verdict is built.
\<close>

definition analyzeReport ::
  "(jstring \<Rightarrow> jstring list \<Rightarrow> fetch_outcome) \<Rightarrow> jstring \<Rightarrow> jstring \<Rightarrow> jstring list \<Rightarrow> AuditResult"
where
  "analyzeReport net now docContent rules =
     (case fetchResult (net docContent rules) of
        Inr result \<Rightarrow> result
      | Inl error \<Rightarrow>
          (let errorMessage = errorMessageOf error
           in \<lparr>status = ERROR,
               summary = errorMessage,
               issues = [\<lparr>rule = RULE_SERVICE_FAILED, description = errorMessage,
                          severity = high, location = Some [], category = special_rules\<rparr>],
               processedAt = now\<rparr>))"

section \<open>Processing one document (Dashboard.tsx, processFile)\<close>

text \<open>The calls a document's processing makes to its two collaborators.\<close>

datatype call = ExtractCall File | JudgeCall jstring "jstring list"

text \<open>"File processing failed.", the summary of the \<^verbatim>\<open>catch\<close> block.\<close>

definition MSG_FILE_FAILED :: jstring where
  "MSG_FILE_FAILED = [25991, 20214, 22788, 29702, 22833, 36133, 12290]"

text \<open>The value returned by the \<^verbatim>\<open>catch\<close> block.\<close>

definition processFile_failed :: "jstring \<Rightarrow> DocFile \<Rightarrow> DocFile" where
  "processFile_failed now docFile =
     docFile\<lparr>isProcessing := False,
             auditResult := Some \<lparr>status = ERROR, summary = MSG_FILE_FAILED, issues = [],
                                  processedAt = now\<rparr>\<rparr>"

text \<open>The value returned at the end of the \<^verbatim>\<open>try\<close> block.\<close>

definition processFile_judged :: "AuditResult \<Rightarrow> jstring \<Rightarrow> DocFile \<Rightarrow> DocFile" where
  "processFile_judged result c docFile =
     docFile\<lparr>content := c, auditResult := Some result, isProcessing := False\<rparr>"

text \<open>
  \<^verbatim>\<open>processFile\<close>, with the extractor as \<open>extract\<close> (\<open>None\<close> when its promise
  rejects). It returns the updated document and, beside it, the collaborator calls it
  made, in order. \<^verbatim>\<open>analyzeReport\<close> never throws, so the \<^verbatim>\<open>catch\<close> block is
  reached from the extractor only.
\<close>

definition processFile ::
  "(File \<Rightarrow> jstring option) \<Rightarrow> (jstring \<Rightarrow> jstring list \<Rightarrow> fetch_outcome) \<Rightarrow> jstring
     \<Rightarrow> RuleConfig list \<Rightarrow> DocFile \<Rightarrow> DocFile \<times> call list"
where
  "processFile extract net now rules docFile =
     (if content docFile = []
      then (case extract (file_doc docFile) of
              None \<Rightarrow> (processFile_failed now docFile, [ExtractCall (file_doc docFile)])
            | Some c \<Rightarrow>
                (processFile_judged (analyzeReport net now c (activeRuleTexts rules)) c docFile,
                 [ExtractCall (file_doc docFile), JudgeCall c (activeRuleTexts rules)]))
      else (processFile_judged
              (analyzeReport net now (content docFile) (activeRuleTexts rules))
              (content docFile) docFile,
            [JudgeCall (content docFile) (activeRuleTexts rules)]))"

section \<open>Adding files (Dashboard.tsx, processNewFiles)\<close>

definition newDocFile :: "jstring \<Rightarrow> File \<Rightarrow> DocFile" where
  "newDocFile i f =
     \<lparr>id_doc = i, file_doc = f, content = [], auditResult = None, isProcessing = False\<rparr>"

text \<open>
  The \<^verbatim>\<open>forEach\<close> over the added files. \<open>current\<close> is the document list \<^verbatim>\<open>files\<close> the
  closure sees; \<open>confirm k\<close> is the user's answer to the overwrite dialog shown for the
  \<open>k\<close>-th file and \<open>rnd k\<close> the random id drawn for it. The loop collects the ids
  handed to \<^verbatim>\<open>removeFile\<close> and the new documents, in order.
\<close>

fun scanFiles ::
  "(nat \<Rightarrow> bool) \<Rightarrow> (nat \<Rightarrow> jstring) \<Rightarrow> DocFile list \<Rightarrow> nat \<Rightarrow> File list
     \<Rightarrow> jstring list \<times> DocFile list \<Rightarrow> jstring list \<times> DocFile list"
where
  "scanFiles confirm rnd current k [] acc = acc"
| "scanFiles confirm rnd current k (f # rest) (removed, newDocFiles) =
     (case find (\<lambda>d. name (file_doc d) = name f) current of
        Some existing \<Rightarrow>
          (if \<not> confirm k
           then scanFiles confirm rnd current (Suc k) rest (removed, newDocFiles)
           else scanFiles confirm rnd current (Suc k) rest
                  (removed @ [id_doc existing], newDocFiles @ [newDocFile (rnd k) f]))
      | None \<Rightarrow>
          scanFiles confirm rnd current (Suc k) rest
            (removed, newDocFiles @ [newDocFile (rnd k) f]))"

text \<open>
  \<^verbatim>\<open>processNewFiles\<close>: the queued \<^verbatim>\<open>removeFile\<close> updates run first, then the
  final update drops every earlier document whose name is among the new ones and appends
  the new documents.
\<close>

definition processNewFiles ::
  "(nat \<Rightarrow> bool) \<Rightarrow> (nat \<Rightarrow> jstring) \<Rightarrow> DocFile list \<Rightarrow> File list \<Rightarrow> DocFile list"
where
  "processNewFiles confirm rnd current fileList =
     (let (removed, newDocFiles) = scanFiles confirm rnd current 0 fileList ([], []);
          prev = foldl (\<lambda>p i. removeFile i p) current removed
      in if length newDocFiles > 0
         then (let namesToRemove = set (map (\<lambda>nf. name (file_doc nf)) newDocFiles);
                   filteredPrev = filter (\<lambda>d. name (file_doc d) \<notin> namesToRemove) prev
               in filteredPrev @ newDocFiles)
         else prev)"

text \<open>The names of the documents of a list, in order.\<close>

definition docNames :: "DocFile list \<Rightarrow> jstring list" where
  "docNames ds = map (\<lambda>d. name (file_doc d)) ds"

section \<open>The batch run and the user beside it (Dashboard.tsx, runBatchAudit)\<close>

text \<open>
  The workers are asynchronous tasks on one thread: a task runs until it awaits, and the
  tasks interleave at these points only. A worker is at the head of its loop
  (\<open>Ready\<close>), awaits the extractor for the document it took, awaits the judgment call
  for it (with the content it sends), or has left its loop.
\<close>

datatype worker = Ready | Extracting DocFile | Judging DocFile jstring | Exited

text \<open>
  The state of the dashboard around a run: the document list and the set of expanded
  documents (React state), the queue and the workers of the run, and the previews whose
  extraction is still awaited, each with the document its click captured. Three history
  fields record what the workers did: their collaborator calls with the id of the
  document they were made for, and for each dequeue and each write-back the worker and
  the document taken from the queue.
\<close>

record batch =
  files :: "DocFile list"
  expandedFiles :: "jstring set"
  queue :: "DocFile list"
  workers :: "worker list"
  previews :: "DocFile list"
  calls :: "(jstring \<times> call) list"
  taken :: "(nat \<times> DocFile) list"
  completed :: "(nat \<times> DocFile) list"

definition CONCURRENT_LIMIT :: nat where
  "CONCURRENT_LIMIT = 3"

definition filesToProcess :: "DocFile list \<Rightarrow> DocFile list" where
  "filesToProcess fs = filter (\<lambda>f. auditResult f = None) fs"

text \<open>
  \<^verbatim>\<open>prev.map(f => filesToProcess.find(ftp => ftp.id === f.id) ? {...f, isProcessing: true} : f)\<close>
\<close>

definition markProcessing :: "DocFile list \<Rightarrow> DocFile list \<Rightarrow> DocFile list" where
  "markProcessing ftp prev =
     map (\<lambda>f. if find (\<lambda>x. id_doc x = id_doc f) ftp \<noteq> None then f\<lparr>isProcessing := True\<rparr> else f)
       prev"

text \<open>
  The start of \<^verbatim>\<open>runBatchAudit\<close>, up to the creation of the workers: the snapshot,
  the marking, the queue, and \<open>min (length filesToProcess) CONCURRENT_LIMIT\<close> workers.
\<close>

definition runBatchAudit :: "batch \<Rightarrow> batch" where
  "runBatchAudit b =
     (let ftp = filesToProcess (files b)
      in b\<lparr>files := markProcessing ftp (files b),
           queue := ftp,
           workers := replicate (min (length ftp) CONCURRENT_LIMIT) Ready\<rparr>)"

text \<open>The state before any run, for a given document list.\<close>

definition idle :: "DocFile list \<Rightarrow> batch" where
  "idle fs = \<lparr>files = fs, expandedFiles = {}, queue = [], workers = [], previews = [],
              calls = [], taken = [], completed = []\<rparr>"

text \<open>
  The end of one pass of the worker's loop: the write-back, the expansion of a document
  with issues, and the return to the head of the loop.
\<close>

definition hasIssues :: "DocFile \<Rightarrow> bool" where
  "hasIssues processed =
     (case auditResult processed of None \<Rightarrow> False | Some r \<Rightarrow> length (issues r) > 0)"

definition finish :: "nat \<Rightarrow> DocFile \<Rightarrow> DocFile \<Rightarrow> batch \<Rightarrow> batch" where
  "finish i f processed b =
     b\<lparr>files := complete processed (files b),
       expandedFiles := (if hasIssues processed
                         then insert (id_doc processed) (expandedFiles b)
                         else expandedFiles b),
       workers := (workers b)[i := Ready],
       completed := completed b @ [(i, f)]\<rparr>"

text \<open>
  The head of the loop: leave when the queue is empty, otherwise take its first document
  and start \<^verbatim>\<open>processFile\<close> on it, which runs up to its first await: the extractor
  when the content is empty, the judgment call otherwise.
\<close>

definition wake :: "RuleConfig list \<Rightarrow> nat \<Rightarrow> batch \<Rightarrow> batch" where
  "wake rules i b =
     (case queue b of
        [] \<Rightarrow> b\<lparr>workers := (workers b)[i := Exited]\<rparr>
      | f # q \<Rightarrow>
          (if content f = []
           then b\<lparr>queue := q,
                  workers := (workers b)[i := Extracting f],
                  calls := calls b @ [(id_doc f, ExtractCall (file_doc f))],
                  taken := taken b @ [(i, f)]\<rparr>
           else b\<lparr>queue := q,
                  workers := (workers b)[i := Judging f (content f)],
                  calls := calls b @ [(id_doc f, JudgeCall (content f) (activeRuleTexts rules))],
                  taken := taken b @ [(i, f)]\<rparr>))"

text \<open>
  What can happen next. For the workers: worker \<open>i\<close> runs the head of its loop, its
  extraction settles (with the content, or rejected), or its judgment call settles. The
  document a worker processes is \<^verbatim>\<open>{...file, isProcessing: true}\<close>. The code that runs
  between two awaits touches the shared state in one place only, the write-back, so it
  is one event here; state updates are applied in the order in which they are issued.
  \<open>rules\<close> is the rule list captured by the closure that started the run.

  For the user, whose controls stay enabled during a run: the remove button of a
  document (\<^verbatim>\<open>removeFile\<close>), an upload or a drop (\<^verbatim>\<open>processNewFiles\<close>, with the
  answers to its overwrite dialogs and the ids it draws), and the preview button of the
  \<open>k\<close>-th listed document. The preview handler opens the document when it has content;
  otherwise it calls the extractor and, when that settles with a content, writes
  \<^verbatim>\<open>{...file, content}\<close> over the documents with the id of \<open>file\<close>, the document as
  it was when the button was clicked; a rejected extraction only raises an alert.
\<close>

datatype event =
    Wake nat
  | Extracted nat "jstring option" jstring
  | Answered nat fetch_outcome jstring
  | Remove jstring
  | Upload "nat \<Rightarrow> bool" "nat \<Rightarrow> jstring" "File list"
  | PreviewClick nat
  | PreviewSettled nat "jstring option"

text \<open>The events of the workers.\<close>

fun workerEvent :: "event \<Rightarrow> bool" where
  "workerEvent (Wake i) = True"
| "workerEvent (Extracted i r now) = True"
| "workerEvent (Answered i out now) = True"
| "workerEvent e = False"

text \<open>A list without its \<open>j\<close>-th element.\<close>

definition dropAt :: "nat \<Rightarrow> 'a list \<Rightarrow> 'a list" where
  "dropAt j xs = take j xs @ drop (Suc j) xs"

fun step :: "RuleConfig list \<Rightarrow> event \<Rightarrow> batch \<Rightarrow> batch option" where
  "step rules (Wake i) b =
     (if i < length (workers b) \<and> workers b ! i = Ready then Some (wake rules i b) else None)"
| "step rules (Extracted i r now) b =
     (if i < length (workers b)
      then (case workers b ! i of
              Extracting f \<Rightarrow>
                (case r of
                   None \<Rightarrow> Some (finish i f (processFile_failed now (f\<lparr>isProcessing := True\<rparr>)) b)
                 | Some c \<Rightarrow>
                     Some (b\<lparr>workers := (workers b)[i := Judging f c],
                             calls := calls b @ [(id_doc f, JudgeCall c (activeRuleTexts rules))]\<rparr>))
            | _ \<Rightarrow> None)
      else None)"
| "step rules (Answered i out now) b =
     (if i < length (workers b)
      then (case workers b ! i of
              Judging f c \<Rightarrow>
                Some (finish i f
                        (processFile_judged
                           (analyzeReport (\<lambda>_ _. out) now c (activeRuleTexts rules)) c
                           (f\<lparr>isProcessing := True\<rparr>))
                        b)
            | _ \<Rightarrow> None)
      else None)"
| "step rules (Remove x) b = Some (b\<lparr>files := removeFile x (files b)\<rparr>)"
| "step rules (Upload confirm rnd fileList) b =
     Some (b\<lparr>files := processNewFiles confirm rnd (files b) fileList\<rparr>)"
| "step rules (PreviewClick k) b =
     (if k < length (files b)
      then (if content (files b ! k) = []
            then Some (b\<lparr>previews := previews b @ [files b ! k]\<rparr>)
            else Some b)
      else None)"
| "step rules (PreviewSettled j r) b =
     (if j < length (previews b)
      then (case r of
              None \<Rightarrow> Some (b\<lparr>previews := dropAt j (previews b)\<rparr>)
            | Some c \<Rightarrow>
                Some (b\<lparr>files := complete ((previews b ! j)\<lparr>content := c\<rparr>) (files b),
                        previews := dropAt j (previews b)\<rparr>))
      else None)"

text \<open>A run of events, each enabled where it happens.\<close>

fun exec :: "RuleConfig list \<Rightarrow> event list \<Rightarrow> batch \<Rightarrow> batch option" where
  "exec rules [] b = Some b"
| "exec rules (e # es) b =
     (case step rules e b of None \<Rightarrow> None | Some b' \<Rightarrow> exec rules es b')"

text \<open>\<^verbatim>\<open>Promise.all(workers)\<close> resolves when every worker has left its loop.\<close>

definition finished :: "batch \<Rightarrow> bool" where
  "finished b = list_all (\<lambda>w. w = Exited) (workers b)"



text \<open>The work left in a state; every event of a worker lowers it.\<close>

fun weight :: "worker \<Rightarrow> nat" where
  "weight Ready = 1"
| "weight (Extracting f) = 3"
| "weight (Judging f c) = 2"
| "weight Exited = 0"

definition workLeft :: "batch \<Rightarrow> nat" where
  "workLeft b = 3 * length (queue b) + sum_list (map weight (workers b))"

section \<open>Rule import (ruleImporter.ts, parseRulesFile)\<close>

text \<open>
  A cell of the sheet as \<^verbatim>\<open>sheet_to_json\<close> with \<^verbatim>\<open>header: 1\<close> gives it: a string,
  a value that is not a string (a number, a boolean), or nothing. A row is an array of
  cells, so the test \<^verbatim>\<open>!row\<close> never holds; reading past the end of a row gives
  \<^verbatim>\<open>undefined\<close>.
\<close>

datatype cell = Str jstring | NonString | Missing

type_synonym row = "cell list"

datatype import_error =
    EmptyOrMalformed
  | BadHeader
  | NoValidRules
  | ParseFailed
  | ReadFailed

definition cellAt :: "row \<Rightarrow> nat \<Rightarrow> cell" where
  "cellAt r i = (if i < length r then r ! i else Missing)"

text \<open>\<^verbatim>\<open>String.prototype.trim\<close>: white space and line terminators.\<close>

definition isWhiteSpace :: "nat \<Rightarrow> bool" where
  "isWhiteSpace c =
     (c \<in> {9, 10, 11, 12, 13, 32, 160, 5760, 8232, 8233, 8239, 8287, 12288, 65279}
      \<or> (8192 \<le> c \<and> c \<le> 8202))"

definition trim :: "jstring \<Rightarrow> jstring" where
  "trim s = rev (dropWhile isWhiteSpace (rev (dropWhile isWhiteSpace s)))"

text \<open>
  \<^verbatim>\<open>cell?.trim()\<close>: \<^verbatim>\<open>undefined\<close> for a missing cell, a TypeError for a cell that
  is not a string (the surrounding \<^verbatim>\<open>try\<close> turns it into the parse failure).
\<close>

fun optTrim :: "cell \<Rightarrow> import_error + jstring option" where
  "optTrim (Str s) = Inr (Some (trim s))"
| "optTrim Missing = Inr None"
| "optTrim NonString = Inl ParseFailed"

text \<open>The two header labels, "rule type" and "rule content" in Chinese.\<close>

definition HEADER_TYPE :: jstring where
  "HEADER_TYPE = [35268, 21017, 31867, 22411]"

definition HEADER_CONTENT :: jstring where
  "HEADER_CONTENT = [35268, 21017, 20869, 23481]"

text \<open>The header test; the second cell is read only when the first one passed.\<close>

definition checkHeader :: "row \<Rightarrow> import_error + unit" where
  "checkHeader headers =
     (case optTrim (cellAt headers 0) of
        Inl e \<Rightarrow> Inl e
      | Inr t0 \<Rightarrow>
          (if t0 \<noteq> Some HEADER_TYPE then Inl BadHeader
           else (case optTrim (cellAt headers 1) of
                   Inl e \<Rightarrow> Inl e
                 | Inr t1 \<Rightarrow> (if t1 \<noteq> Some HEADER_CONTENT then Inl BadHeader else Inr ()))))"

text \<open>
  \<^verbatim>\<open>CATEGORY_REVERSE_MAP[typeCN] || 'special_rules'\<close>, for the labels that are not
  names of members of \<^verbatim>\<open>Object.prototype\<close>: for such a label (\<^verbatim>\<open>constructor\<close>,
  \<^verbatim>\<open>toString\<close>, ...) the lookup of the code returns that member, which is no category.
\<close>

definition categoryOf :: "jstring \<Rightarrow> RuleCategory" where
  "categoryOf typeCN =
     (if typeCN = [25991, 26412, 32534, 36753] then text_editing
      else if typeCN = [27969, 36716, 36923, 36753] then workflow_logic
      else if typeCN = [32467, 26524, 21028, 23450] then result_determination
      else special_rules)"

text \<open>
  The loop over the data rows, from index \<open>i\<close>; \<open>mkId i\<close> is the id built from the
  clock and the row index.
\<close>

fun parseRows ::
  "(nat \<Rightarrow> jstring) \<Rightarrow> nat \<Rightarrow> row list \<Rightarrow> RuleConfig list \<Rightarrow> import_error + RuleConfig list"
where
  "parseRows mkId i [] newRules = Inr newRules"
| "parseRows mkId i (r # rest) newRules =
     (if length r < 2 then parseRows mkId (Suc i) rest newRules
      else (case optTrim (cellAt r 0) of
              Inl e \<Rightarrow> Inl e
            | Inr typeCN \<Rightarrow>
                (case optTrim (cellAt r 1) of
                   Inl e \<Rightarrow> Inl e
                 | Inr txt \<Rightarrow>
                     (case (typeCN, txt) of
                        (Some t, Some x) \<Rightarrow>
                          (if t \<noteq> [] \<and> x \<noteq> []
                           then parseRows mkId (Suc i) rest
                                  (newRules @ [\<lparr>id_rule = mkId i, text_rule = x, enabled = True,
                                                 category_rule = categoryOf t\<rparr>])
                           else parseRows mkId (Suc i) rest newRules)
                      | _ \<Rightarrow> parseRows mkId (Suc i) rest newRules))))"

text \<open>
  What the file reader and the spreadsheet library make of the file: a read error, an
  exception while parsing, or the rows of the first sheet.
\<close>

datatype sheet = ReadError | Unparsable | JsonData "row list"

fun parseRulesFile :: "(nat \<Rightarrow> jstring) \<Rightarrow> sheet \<Rightarrow> import_error + RuleConfig list" where
  "parseRulesFile mkId ReadError = Inl ReadFailed"
| "parseRulesFile mkId Unparsable = Inl ParseFailed"
| "parseRulesFile mkId (JsonData jsonData) =
     (if length jsonData < 2 then Inl EmptyOrMalformed
      else (case checkHeader (hd jsonData) of
              Inl e \<Rightarrow> Inl e
            | Inr _ \<Rightarrow>
                (case parseRows mkId 1 (tl jsonData) [] of
                   Inl e \<Rightarrow> Inl e
                 | Inr newRules \<Rightarrow>
                     (if length newRules = 0 then Inl NoValidRules else Inr newRules))))"

text \<open>
  \<^verbatim>\<open>handleRuleImport\<close> (Dashboard.tsx): the new rule list, and what the alert shows:
  the number of imported rules, or the error.
\<close>

definition handleRuleImport ::
  "(nat \<Rightarrow> jstring) \<Rightarrow> sheet \<Rightarrow> RuleConfig list \<Rightarrow> RuleConfig list \<times> (import_error + nat)"
where
  "handleRuleImport mkId s prev =
     (case parseRulesFile mkId s of
        Inr importedRules \<Rightarrow> (prev @ importedRules, Inr (length importedRules))
      | Inl err \<Rightarrow> (prev, Inl err))"

section \<open>The server-side handler (api/analyze-report.ts)\<close>

datatype http_method = OPTIONS | POST | OtherMethod

text \<open>
  The object parsed from the model's answer: each of the three fields read by the
  handler is present or not (\<open>overallStatus\<close> and \<open>summary\<close> as strings).
\<close>

record ai_verdict =
  overallStatus :: "jstring option"
  summary_ai :: "jstring option"
  issues_ai :: "AuditIssue list option"

text \<open>
  What the upstream model service does with one request: the call or the reading of its
  body throws (with a message), the response is not ok (with the body as text), the
  answer holds no content, the content does not parse to an object whose fields can be
  read (with the message), or it parses.
\<close>

datatype upstream =
    UpstreamThrows jstring
  | UpstreamNotOk jstring
  | UpstreamNoContent
  | ContentUnparsable jstring
  | ContentParsed ai_verdict

datatype payload = NoBody | ErrorBody jstring | VerdictBody AuditResult

record response =
  code :: nat
  body :: payload

definition MAX_CONTENT_LENGTH :: nat where
  "MAX_CONTENT_LENGTH = 80000"

text \<open>
  The messages of the handler, in Chinese: "only POST is supported", "the API key is not
  configured ...", "the AI returned an error:", "the AI returned no valid result", "no
  summary was generated", "audit failed:", "unknown error", the rule name "AI audit
  service error", and "check the API key ...".
\<close>

definition MSG_ONLY_POST :: jstring where
  "MSG_ONLY_POST = [21482, 25903, 25345, 80, 79, 83, 84, 35831, 27714, 21734, 65374]"

definition MSG_NO_KEY :: jstring where
  "MSG_NO_KEY = [38463, 37324, 20113, 65, 80, 73, 32, 75, 101, 121, 26410, 37197, 32622,
     65281, 35831, 21435, 86, 101, 114, 99, 101, 108, 30340, 29615, 22659, 21464, 37327,
     37324, 22635, 20889, 65, 76, 73, 89, 85, 78, 95, 68, 65, 83, 72, 83, 67, 79, 80, 69,
     95, 65, 80, 73, 95, 75, 69, 89]"

definition MSG_UPSTREAM_ERROR :: jstring where
  "MSG_UPSTREAM_ERROR = [38463, 37324, 20113, 65, 73, 36820, 22238, 38169, 35823, 65306]"

definition MSG_NO_RESULT :: jstring where
  "MSG_NO_RESULT = [38463, 37324, 20113, 65, 73, 26410, 36820, 22238, 26377, 25928, 23457,
     26680, 32467, 26524]"

definition MSG_NO_SUMMARY :: jstring where
  "MSG_NO_SUMMARY = [26410, 29983, 25104, 23457, 26680, 24635, 32467]"

definition MSG_AUDIT_FAILED :: jstring where
  "MSG_AUDIT_FAILED = [23457, 26680, 22833, 36133, 65306]"

definition MSG_UNKNOWN :: jstring where
  "MSG_UNKNOWN = [26410, 30693, 38169, 35823]"

definition RULE_AI_ERROR :: jstring where
  "RULE_AI_ERROR = [65, 73, 23457, 26680, 26381, 21153, 24322, 24120]"

definition MSG_CHECK_KEY :: jstring where
  "MSG_CHECK_KEY = [35831, 26816, 26597, 38463, 37324, 20113, 65, 80, 73, 32, 75, 101, 121,
     26159, 21542, 27491, 30830, 65292, 25110, 38463, 37324, 20113, 36134, 21495, 26159,
     21542, 24320, 36890, 36890, 20041, 21315, 38382, 26381, 21153]"

text \<open>
  The status of the 200 response:
  \<^verbatim>\<open>overallStatus === 'FAIL' ? 'FAIL' : (overallStatus === 'WARNING' ? 'WARNING' : 'PASS')\<close>
\<close>

definition coerceStatus :: "jstring option \<Rightarrow> AuditStatus" where
  "coerceStatus s =
     (if s = Some (ascii ''FAIL'') then FAIL
      else if s = Some (ascii ''WARNING'') then WARNING
      else PASS)"

text \<open>The body of the 200 response.\<close>

definition successBody :: "ai_verdict \<Rightarrow> jstring \<Rightarrow> AuditResult" where
  "successBody parsed now =
     \<lparr>status = coerceStatus (overallStatus parsed),
      summary = (case summary_ai parsed of
                   None \<Rightarrow> MSG_NO_SUMMARY
                 | Some s \<Rightarrow> (if s = [] then MSG_NO_SUMMARY else s)),
      issues = (case issues_ai parsed of None \<Rightarrow> [] | Some l \<Rightarrow> l),
      processedAt = now\<rparr>"

text \<open>The body of the 500 response, built in the \<^verbatim>\<open>catch\<close> block from the message.\<close>

definition failureBody :: "jstring \<Rightarrow> jstring \<Rightarrow> AuditResult" where
  "failureBody msg now =
     \<lparr>status = ERROR,
      summary = MSG_AUDIT_FAILED @ (if msg = [] then MSG_UNKNOWN else msg),
      issues = [\<lparr>rule = RULE_AI_ERROR,
                 description = (if msg = [] then MSG_CHECK_KEY else msg),
                 severity = high, location = Some [], category = special_rules\<rparr>],
      processedAt = now\<rparr>"

text \<open>
  The \<^verbatim>\<open>try\<close> block: the parsed answer, or the message of the error thrown. The
  request body is the one the client sends, a content string and a list of rule texts;
  \<open>ai\<close> is the upstream service, called with the truncated content and the rule lines.
\<close>

definition askUpstream ::
  "jstring option \<Rightarrow> (jstring \<Rightarrow> jstring list \<Rightarrow> upstream) \<Rightarrow> jstring \<Rightarrow> jstring list
     \<Rightarrow> jstring + ai_verdict"
where
  "askUpstream apiKey ai docContent rules =
     (if apiKey = None \<or> apiKey = Some [] then Inl MSG_NO_KEY
      else (let truncatedContent =
                  (if length docContent > MAX_CONTENT_LENGTH
                   then take MAX_CONTENT_LENGTH docContent else docContent);
                activeRules = map (\<lambda>r. ascii ''- '' @ r) rules
            in case ai truncatedContent activeRules of
                 UpstreamThrows m \<Rightarrow> Inl m
               | UpstreamNotOk d \<Rightarrow> Inl (MSG_UPSTREAM_ERROR @ d)
               | UpstreamNoContent \<Rightarrow> Inl MSG_NO_RESULT
               | ContentUnparsable m \<Rightarrow> Inl m
               | ContentParsed parsed \<Rightarrow> Inr parsed))"

definition handler ::
  "http_method \<Rightarrow> jstring option \<Rightarrow> (jstring \<Rightarrow> jstring list \<Rightarrow> upstream) \<Rightarrow> jstring
     \<Rightarrow> jstring \<Rightarrow> jstring list \<Rightarrow> response"
where
  "handler method apiKey ai now docContent rules =
     (if method = OPTIONS then \<lparr>code = 200, body = NoBody\<rparr>
      else if method \<noteq> POST then \<lparr>code = 405, body = ErrorBody MSG_ONLY_POST\<rparr>
      else (case askUpstream apiKey ai docContent rules of
              Inr parsed \<Rightarrow> \<lparr>code = 200, body = VerdictBody (successBody parsed now)\<rparr>
            | Inl msg \<Rightarrow> \<lparr>code = 500, body = VerdictBody (failureBody msg now)\<rparr>))"

section \<open>Repeated runs\<close>

text \<open>The ids of the documents the extractor was called for by the workers, in order.\<close>

fun extractedIds :: "(jstring \<times> call) list \<Rightarrow> jstring list" where
  "extractedIds [] = []"
| "extractedIds ((x, ExtractCall f) # cs) = x # extractedIds cs"
| "extractedIds ((x, JudgeCall c rs) # cs) = extractedIds cs"

text \<open>
  A sequence of runs. The button that starts a run is enabled when no run is going on
  and the document list is not empty. Each round has the rule list of the moment and
  the events that follow the start: those of the run, and what the user does during the
  run and after it.
\<close>

fun sessions :: "(RuleConfig list \<times> event list) list \<Rightarrow> batch \<Rightarrow> batch option" where
  "sessions [] b = Some b"
| "sessions ((rules, es) # rest) b =
     (if finished b \<and> files b \<noteq> []
      then (case exec rules es (runBatchAudit b) of
              None \<Rightarrow> None
            | Some b' \<Rightarrow> sessions rest b')
      else None)"

section \<open>Invariants of the batch run\<close>

text \<open>The document a worker is processing, if any.\<close>

fun busyDoc :: "worker \<Rightarrow> DocFile option" where
  "busyDoc (Extracting f) = Some f"
| "busyDoc (Judging f c) = Some f"
| "busyDoc w = None"

text \<open>The ids of the documents still to be written back: queued, or with a worker.\<close>

definition pendingIds :: "batch \<Rightarrow> jstring set" where
  "pendingIds b = id_doc ` set (queue b) \<union> id_doc ` {f. \<exists>w \<in> set (workers b). busyDoc w = Some f}"

text \<open>
  \<open>d\<close> is what \<^verbatim>\<open>processFile\<close> returns for the snapshot document \<open>g\<close>, for some
  behaviour of the extractor and of the network and some time.
\<close>

definition outcomeOf :: "RuleConfig list \<Rightarrow> DocFile \<Rightarrow> DocFile \<Rightarrow> bool" where
  "outcomeOf rules g d =
     (\<exists>extract net now. d = fst (processFile extract net now rules (g\<lparr>isProcessing := True\<rparr>)))"

definition settled :: "RuleConfig list \<Rightarrow> DocFile list \<Rightarrow> DocFile \<Rightarrow> bool" where
  "settled rules fs0 d = (\<exists>g \<in> set (filesToProcess fs0). outcomeOf rules g d)"

text \<open>
  A worker holds a document of the snapshot; it awaits the extractor only for a document
  without content, and the content it sends to the judgment call is the document's own
  unless that was empty.
\<close>

fun workerOk :: "DocFile list \<Rightarrow> worker \<Rightarrow> bool" where
  "workerOk fs0 (Extracting f) = (f \<in> set (filesToProcess fs0) \<and> content f = [])"
| "workerOk fs0 (Judging f c) = (f \<in> set (filesToProcess fs0) \<and> (content f = [] \<or> c = content f))"
| "workerOk fs0 w = True"

text \<open>
  The document list against the list \<open>fs0\<close> of the start: same ids at the same
  places, and every document that had no verdict is either still pending or holds what
  \<^verbatim>\<open>processFile\<close> returned.
\<close>

definition tracked :: "RuleConfig list \<Rightarrow> DocFile list \<Rightarrow> jstring set \<Rightarrow> DocFile list \<Rightarrow> bool" where
  "tracked rules fs0 P fs =
     list_all2 (\<lambda>d0 d. id_doc d = id_doc d0 \<and>
                  (auditResult d0 = None \<longrightarrow> id_doc d0 \<in> P \<or> settled rules fs0 d)) fs0 fs"

definition batchInv :: "RuleConfig list \<Rightarrow> DocFile list \<Rightarrow> batch \<Rightarrow> bool" where
  "batchInv rules fs0 b =
     (tracked rules fs0 (pendingIds b) (files b)
      \<and> (queue b \<noteq> [] \<longrightarrow> workers b \<noteq> [] \<and> Exited \<notin> set (workers b))
      \<and> set (queue b) \<subseteq> set (filesToProcess fs0)
      \<and> list_all (workerOk fs0) (workers b))"




section \<open>Concrete inputs\<close>

text \<open>Small documents, rules, files, sheets and runs on which the theorems are instantiated.\<close>

definition demoDoc :: "string \<Rightarrow> DocFile" where
  "demoDoc n = \<lparr>id_doc = ascii n, file_doc = \<lparr>name = ascii n @ ascii ''.docx'', handle = 0\<rparr>,
                content = [], auditResult = None, isProcessing = False\<rparr>"

definition demoPass :: AuditResult where
  "demoPass = \<lparr>status = PASS, summary = ascii ''ok'', issues = [], processedAt = ascii ''t''\<rparr>"

definition demoEvents :: "event list" where
  "demoEvents =
     [Wake 0, Wake (Suc 0),
      Extracted 0 (Some (ascii ''<p>A</p>'')) [],
      Extracted (Suc 0) None (ascii ''t1''),
      Answered 0 (FetchResponse True (ascii ''200'') (Inr demoPass)) [],
      Wake 0, Wake (Suc 0)]"

definition demoRule :: "string \<Rightarrow> bool \<Rightarrow> RuleConfig" where
  "demoRule t e = \<lparr>id_rule = ascii t, text_rule = ascii t, enabled = e, category_rule = special_rules\<rparr>"

definition demoParsed :: "string \<Rightarrow> ai_verdict" where
  "demoParsed s = \<lparr>overallStatus = Some (ascii s), summary_ai = None, issues_ai = None\<rparr>"


definition demoRows :: "string \<Rightarrow> string \<Rightarrow> row list" where
  "demoRows h0 h1 =
     [[Str (ascii h0), Str (ascii h1)], [Str [25991, 26412, 32534, 36753], Str (ascii ''r'')]]"

definition demoFile :: "string \<Rightarrow> nat \<Rightarrow> File" where
  "demoFile n h = \<lparr>name = ascii n, handle = h\<rparr>"

definition demoJudged :: DocFile where
  "demoJudged = (demoDoc ''a'')\<lparr>content := ascii ''<p>A</p>'', auditResult := Some demoPass\<rparr>"


text \<open>
  A run on one document during which the user clicks its preview button: the click
  comes while the worker awaits, the worker writes its verdict back, and the preview's
  extraction settles after that. \<open>c\<close> is what the extractor returns for the document.
\<close>

definition previewRunToVerdict :: "jstring \<Rightarrow> event list" where
  "previewRunToVerdict c =
     [Wake 0, PreviewClick 0, Extracted 0 (Some c) [],
      Answered 0 (FetchResponse True (ascii ''200'') (Inr demoPass)) []]"

definition previewRun :: "jstring \<Rightarrow> event list" where
  "previewRun c = previewRunToVerdict c @ [PreviewSettled 0 (Some c), Wake 0]"

text \<open>
  Two runs on a document whose extraction gives the empty string: the run above, and a
  second run started after it.
\<close>

definition previewRounds :: "(RuleConfig list \<times> event list) list" where
  "previewRounds = [([], previewRun []), ([], [Wake 0])]"

section \<open>The batch run: preservation of the invariants\<close>

text \<open>The definitions to unfold when a run is evaluated on concrete inputs.\<close>

lemmas run_simps = runBatchAudit_def idle_def filesToProcess_def markProcessing_def
  CONCURRENT_LIMIT_def wake_def finish_def complete_def hasIssues_def processFile_failed_def
  processFile_judged_def analyzeReport_def demoDoc_def demoPass_def demoEvents_def ascii_def
  finished_def Let_def dropAt_def previewRun_def previewRunToVerdict_def

lemma set_update_other: "i < length ws \<Longrightarrow> x \<in> set ws \<Longrightarrow> x \<noteq> ws ! i \<Longrightarrow> x \<in> set (ws[i := w])"
  by (metis in_set_conv_nth length_list_update nth_list_update_neq)

lemma set_update_cases: "x \<in> set (ws[i := w]) \<Longrightarrow> x = w \<or> x \<in> set ws"
  using set_update_subset_insert by fastforce

lemma list_all_update: "list_all P ws \<Longrightarrow> P w \<Longrightarrow> list_all P (ws[i := w])"
  by (auto simp: list_all_iff dest!: set_update_cases)

lemma outcomeOf_props:
  assumes "outcomeOf rules g d"
  shows "id_doc d = id_doc g" "auditResult d \<noteq> None" "\<not> isProcessing d" "file_doc d = file_doc g"
  using assms
  by (auto simp: outcomeOf_def processFile_def processFile_failed_def processFile_judged_def
      split: if_splits option.splits)

lemma tracked_mono: "tracked rules fs0 P fs \<Longrightarrow> P \<subseteq> P' \<Longrightarrow> tracked rules fs0 P' fs"
  unfolding tracked_def by (erule list_all2_mono) auto

lemma tracked_start: "tracked rules fs (id_doc ` set (filesToProcess fs)) (markProcessing (filesToProcess fs) fs)"
  unfolding tracked_def markProcessing_def list_all2_map2
  by (rule list_all2_all_nthI) (auto simp: filesToProcess_def)

lemma batchInv_start: "batchInv rules fs (runBatchAudit (idle fs))"
  using tracked_start[of rules fs]
  by (auto simp: batchInv_def runBatchAudit_def idle_def pendingIds_def Let_def
      CONCURRENT_LIMIT_def list_all_iff)

lemma tracked_complete:
  assumes "tracked rules fs0 P fs"
    and "settled rules fs0 p" and "\<And>x. x \<in> P \<Longrightarrow> x \<noteq> id_doc p \<Longrightarrow> x \<in> P'"
  shows "tracked rules fs0 P' (complete p fs)"
  using assms(1) unfolding tracked_def complete_def list_all2_map2
  by (rule list_all2_mono) (use assms(2,3) in auto)

lemma batchInv_finish:
  assumes inv: "batchInv rules fs0 b" and i: "i < length (workers b)"
    and w: "busyDoc (workers b ! i) = Some f"
    and p: "settled rules fs0 p" "id_doc p = id_doc f"
  shows "batchInv rules fs0 (finish i f p b)"
proof -
  have *: "\<And>x. x \<in> pendingIds b \<Longrightarrow> x \<noteq> id_doc p \<Longrightarrow> x \<in> pendingIds (finish i f p b)"
  proof -
    fix x assume x: "x \<in> pendingIds b" "x \<noteq> id_doc p"
    then consider "x \<in> id_doc ` set (queue b)"
      | g v where "v \<in> set (workers b)" "busyDoc v = Some g" "x = id_doc g"
      by (auto simp: pendingIds_def)
    then show "x \<in> pendingIds (finish i f p b)"
    proof cases
      case 1 then show ?thesis by (simp add: pendingIds_def finish_def)
    next
      case 2
      then have "v \<noteq> workers b ! i" using x(2) w p(2) by auto
      then have "v \<in> set ((workers b)[i := Ready])" using 2(1) i by (simp add: set_update_other)
      then show ?thesis using 2 by (auto simp: pendingIds_def finish_def)
    qed
  qed
  have q: "queue b \<noteq> [] \<Longrightarrow> Exited \<notin> set ((workers b)[i := Ready])"
    using inv by (auto simp: batchInv_def dest!: set_update_cases)
  have ok: "list_all (workerOk fs0) ((workers b)[i := Ready])"
    using inv by (simp add: batchInv_def list_all_update)
  from inv have "tracked rules fs0 (pendingIds b) (files b)"
    by (simp add: batchInv_def)
  from tracked_complete[OF this p(1) *]
  show ?thesis using inv q ok by (auto simp: batchInv_def finish_def)
qed

lemma batchInv_frame:
  assumes "batchInv rules fs0 b" and "files b' = files b" and "pendingIds b \<subseteq> pendingIds b'"
    and "queue b' \<noteq> [] \<Longrightarrow> workers b' \<noteq> [] \<and> Exited \<notin> set (workers b')"
    and "set (queue b') \<subseteq> set (queue b)" and "list_all (workerOk fs0) (workers b')"
  shows "batchInv rules fs0 b'"
  using assms tracked_mono[of rules fs0 "pendingIds b" "files b" "pendingIds b'"]
  by (auto simp: batchInv_def)

lemma pending_retag:
  assumes i: "i < length (workers b)" and w: "busyDoc (workers b ! i) = Some f" and w': "busyDoc w' = Some f"
  shows "pendingIds b \<subseteq> pendingIds (b\<lparr>workers := (workers b)[i := w'], calls := cs\<rparr>)"
proof
  fix x assume "x \<in> pendingIds b"
  then consider "x \<in> id_doc ` set (queue b)"
    | g v where "v \<in> set (workers b)" "busyDoc v = Some g" "x = id_doc g"
    by (auto simp: pendingIds_def)
  then show "x \<in> pendingIds (b\<lparr>workers := (workers b)[i := w'], calls := cs\<rparr>)"
  proof cases
    case 1 then show ?thesis by (simp add: pendingIds_def)
  next
    case 2
    show ?thesis
    proof (cases "v = workers b ! i")
      case True
      then have "g = f" using 2 w by simp
      moreover have "w' \<in> set ((workers b)[i := w'])" using i by (simp add: set_update_memI)
      ultimately show ?thesis using 2 w' by (auto simp: pendingIds_def)
    next
      case False
      then have "v \<in> set ((workers b)[i := w'])" using 2(1) i by (simp add: set_update_other)
      then show ?thesis using 2 by (auto simp: pendingIds_def)
    qed
  qed
qed

lemma batchInv_wake:
  assumes inv: "batchInv rules fs0 b" and i: "i < length (workers b)" and r: "workers b ! i = Ready"
  shows "batchInv rules fs0 (wake rules i b)"
proof (cases "queue b")
  case Nil
  have "pendingIds b \<subseteq> pendingIds (b\<lparr>workers := (workers b)[i := Exited]\<rparr>)"
  proof
    fix x assume "x \<in> pendingIds b"
    then obtain g v where "v \<in> set (workers b)" "busyDoc v = Some g" "x = id_doc g"
      using Nil by (auto simp: pendingIds_def)
    moreover from this have "v \<in> set ((workers b)[i := Exited])" using i r by (auto intro!: set_update_other)
    ultimately show "x \<in> pendingIds (b\<lparr>workers := (workers b)[i := Exited]\<rparr>)"
      by (auto simp: pendingIds_def)
  qed
  moreover have "list_all (workerOk fs0) ((workers b)[i := Exited])"
    using inv by (simp add: batchInv_def list_all_update)
  ultimately show ?thesis unfolding wake_def Nil
    by (intro batchInv_frame[OF inv]) (simp_all add: Nil)
next
  case (Cons f q)
  define w' where "w' = (if content f = [] then Extracting f else Judging f (content f))"
  have bw: "busyDoc w' = Some f" by (simp add: w'_def)
  have fin: "f \<in> set (filesToProcess fs0)" using inv Cons by (auto simp: batchInv_def)
  have sub: "pendingIds b \<subseteq> id_doc ` set q \<union> id_doc ` {g. \<exists>w \<in> set ((workers b)[i := w']). busyDoc w = Some g}"
  proof
    fix x assume "x \<in> pendingIds b"
    then consider "x = id_doc f" | "x \<in> id_doc ` set q"
      | g v where "v \<in> set (workers b)" "busyDoc v = Some g" "x = id_doc g"
      using Cons by (auto simp: pendingIds_def)
    then show "x \<in> id_doc ` set q \<union> id_doc ` {g. \<exists>w \<in> set ((workers b)[i := w']). busyDoc w = Some g}"
    proof cases
      case 1
      have "w' \<in> set ((workers b)[i := w'])" using i by (simp add: set_update_memI)
      then show ?thesis using 1 bw by auto
    next
      case 2 then show ?thesis by simp
    next
      case 3
      then have "v \<in> set ((workers b)[i := w'])" using i r by (auto intro!: set_update_other)
      then show ?thesis using 3 by auto
    qed
  qed
  have ex: "Exited \<notin> set ((workers b)[i := w'])"
    using inv Cons bw by (auto simp: batchInv_def dest!: set_update_cases)
  have ne: "(workers b)[i := w'] \<noteq> []" using i by auto
  have ok: "list_all (workerOk fs0) ((workers b)[i := w'])"
    using inv fin by (auto simp: batchInv_def w'_def intro!: list_all_update)
  have b'': "wake rules i b = b\<lparr>queue := q, workers := (workers b)[i := w'],
      calls := calls b @ [(id_doc f, if content f = [] then ExtractCall (file_doc f)
                else JudgeCall (content f) (activeRuleTexts rules))],
      taken := taken b @ [(i, f)]\<rparr>"
    by (simp add: wake_def Cons w'_def)
  show ?thesis unfolding b''
    by (rule batchInv_frame[OF inv]) (use sub ex ne ok Cons in \<open>auto simp: pendingIds_def\<close>)
qed

lemma batchInv_step:
  assumes inv: "batchInv rules fs0 b" and st: "step rules e b = Some b'" and we: "workerEvent e"
  shows "batchInv rules fs0 b'"
proof (cases e)
  case (Wake i)
  with st have "i < length (workers b)" "workers b ! i = Ready" "b' = wake rules i b"
    by (auto split: if_splits)
  then show ?thesis using batchInv_wake[OF inv] by simp
next
  case (Extracted i r now)
  with st obtain f where i: "i < length (workers b)" and w: "workers b ! i = Extracting f"
    by (auto split: if_splits worker.splits)
  have bw: "busyDoc (workers b ! i) = Some f" using w by simp
  have wf: "f \<in> set (filesToProcess fs0)" "content f = []"
    using inv i w by (auto simp: batchInv_def list_all_length dest!: spec[of _ i])
  show ?thesis
  proof (cases r)
    case None
    with st Extracted i w have b': "b' = finish i f (processFile_failed now (f\<lparr>isProcessing := True\<rparr>)) b"
      by simp
    have "processFile_failed now (f\<lparr>isProcessing := True\<rparr>)
        = fst (processFile (\<lambda>_. None) (\<lambda>_ _. FetchThrows \<lparr>name_err = [], message = []\<rparr>) now rules (f\<lparr>isProcessing := True\<rparr>))"
      using wf by (simp add: processFile_def)
    then have "settled rules fs0 (processFile_failed now (f\<lparr>isProcessing := True\<rparr>))"
      unfolding settled_def outcomeOf_def using wf(1) by blast
    then show ?thesis unfolding b'
      by (intro batchInv_finish[OF inv i bw]) (simp_all add: processFile_failed_def)
  next
    case (Some c)
    with st Extracted i w have b': "b' = b\<lparr>workers := (workers b)[i := Judging f c],
        calls := calls b @ [(id_doc f, JudgeCall c (activeRuleTexts rules))]\<rparr>"
      by simp
    have "pendingIds b \<subseteq> pendingIds b'" unfolding b'
      by (rule pending_retag[OF i bw]) simp
    moreover have "queue b \<noteq> [] \<Longrightarrow> Exited \<notin> set ((workers b)[i := Judging f c])"
      using inv by (auto simp: batchInv_def dest!: set_update_cases)
    moreover have "list_all (workerOk fs0) ((workers b)[i := Judging f c])"
      using inv wf by (auto simp: batchInv_def intro!: list_all_update)
    moreover have "queue b' = queue b" "files b' = files b" "workers b' = (workers b)[i := Judging f c]" by (simp_all add: b')
    ultimately show ?thesis using inv i
      by (intro batchInv_frame[OF inv]) (auto simp: batchInv_def)
  qed
next
  case (Answered i out now)
  with st obtain f c where i: "i < length (workers b)" and w: "workers b ! i = Judging f c"
    by (auto split: if_splits worker.splits)
  have bw: "busyDoc (workers b ! i) = Some f" using w by simp
  have wf: "f \<in> set (filesToProcess fs0)" "content f = [] \<or> c = content f"
    using inv i w by (auto simp: batchInv_def list_all_length dest!: spec[of _ i])
  define p where "p = processFile_judged
       (analyzeReport (\<lambda>_ _. out) now c (activeRuleTexts rules)) c (f\<lparr>isProcessing := True\<rparr>)"
  from st Answered i w have b': "b' = finish i f p b"
    by (simp add: p_def)
  have "p = fst (processFile (\<lambda>_. Some c) (\<lambda>_ _. out) now rules (f\<lparr>isProcessing := True\<rparr>))"
    using wf(2) by (auto simp: processFile_def p_def)
  then have "settled rules fs0 p"
    unfolding settled_def outcomeOf_def using wf(1) by blast
  then show ?thesis unfolding b'
    by (intro batchInv_finish[OF inv i bw]) (simp_all add: p_def processFile_judged_def)
qed (use we in simp_all)

lemma batchInv_exec:
  "batchInv rules fs0 b \<Longrightarrow> list_all workerEvent es \<Longrightarrow> exec rules es b = Some b'
     \<Longrightarrow> batchInv rules fs0 b'"
  by (induction es arbitrary: b) (auto split: option.splits dest: batchInv_step)

lemma finished_no_pending:
  assumes "batchInv rules fs0 b" "finished b"
  shows "pendingIds b = {}"
proof -
  have ex: "\<forall>w \<in> set (workers b). w = Exited" using assms(2) by (simp add: finished_def list_all_iff)
  then have "queue b = []" using assms(1) by (cases "workers b") (auto simp: batchInv_def)
  moreover have "{f. \<exists>w \<in> set (workers b). busyDoc w = Some f} = {}" using ex by auto
  ultimately show ?thesis by (simp add: pendingIds_def)
qed

lemma step_progress:
  assumes "\<not> finished b"
  shows "\<exists>e b'. step rules e b = Some b'"
proof -
  from assms obtain i where i: "i < length (workers b)" and ne: "workers b ! i \<noteq> Exited"
    by (auto simp: finished_def list_all_length)
  show ?thesis
  proof (cases "workers b ! i")
    case Ready
    then have "step rules (Wake i) b = Some (wake rules i b)" using i by simp
    then show ?thesis by blast
  next
    case (Extracting f)
    then have "step rules (Extracted i None []) b \<noteq> None" using i by simp
    then show ?thesis by blast
  next
    case (Judging f c)
    then have "step rules (Answered i (FetchThrows \<lparr>name_err = [], message = []\<rparr>) []) b \<noteq> None" using i by simp
    then show ?thesis by blast
  next
    case Exited
    with ne show ?thesis by simp
  qed
qed

lemma weight_update:
  "i < length ws \<Longrightarrow> sum_list (map weight (ws[i := w])) + weight (ws ! i) = sum_list (map weight ws) + weight w"
proof (induction ws arbitrary: i)
  case Nil then show ?case by simp
next
  case (Cons a ws) then show ?case by (cases i) auto
qed

lemma step_decreases:
  assumes "step rules e b = Some b'" and we: "workerEvent e"
  shows "workLeft b' < workLeft b"
proof (cases e)
  case (Wake i)
  with assms(1) have i: "i < length (workers b)" and r: "workers b ! i = Ready" and b': "b' = wake rules i b"
    by (auto split: if_splits)
  show ?thesis
  proof (cases "queue b")
    case Nil
    then show ?thesis using weight_update[OF i, of Exited] r
      by (simp add: b' wake_def workLeft_def)
  next
    case (Cons f q)
    then show ?thesis
      using weight_update[OF i, of "Extracting f"] weight_update[OF i, of "Judging f (content f)"] r
      by (simp add: b' wake_def workLeft_def)
  qed
next
  case (Extracted i r now)
  with assms(1) obtain f where i: "i < length (workers b)" and w: "workers b ! i = Extracting f"
    by (auto split: if_splits worker.splits)
  show ?thesis
  proof (cases r)
    case None
    then show ?thesis using assms(1) Extracted i w weight_update[OF i, of Ready]
      by (auto simp: workLeft_def finish_def)
  next
    case (Some c)
    then show ?thesis using assms(1) Extracted i w weight_update[OF i, of "Judging f c"]
      by (auto simp: workLeft_def)
  qed
next
  case (Answered i out now)
  with assms(1) obtain f c where i: "i < length (workers b)" and w: "workers b ! i = Judging f c"
    by (auto split: if_splits worker.splits)
  show ?thesis
    using assms(1) Answered i w weight_update[OF i, of Ready]
    by (auto simp: workLeft_def finish_def)
qed (use we in simp_all)













lemma exec_bound:
  "exec rules es b = Some b' \<Longrightarrow> list_all workerEvent es \<Longrightarrow> length es + workLeft b' \<le> workLeft b"
proof (induction es arbitrary: b)
  case Nil then show ?case by simp
next
  case (Cons e es)
  then obtain b1 where 1: "step rules e b = Some b1" and 2: "exec rules es b1 = Some b'"
    by (auto split: option.splits)
  have 3: "workerEvent e" "list_all workerEvent es" using Cons.prems(2) by simp_all
  show ?case using Cons.IH[OF 2 3(2)] step_decreases[OF 1 3(1)] by simp
qed

section \<open>Batch totality\<close>

text \<open>
  A run in which only the workers act: under every interleaving and every outcome of
  the extractor and of the judgment calls, when all workers have left their loops the
  document list has its length, and each document that had no verdict at the start has,
  at its place and under its id, a verdict and \<open>isProcessing = False\<close>; it is the value
  \<^verbatim>\<open>processFile\<close> returns for a document of the snapshot with that id. Such a run
  ends: a state that is not finished has an enabled event, every event of a worker
  lowers \<open>workLeft\<close>, and the run has no more events than the work left at its start.
\<close>

lemma undisturbed_totality:
  assumes "exec rules es (runBatchAudit (idle fs)) = Some b" and we: "list_all workerEvent es"
  shows "(finished b \<longrightarrow>
            length (files b) = length fs \<and>
            (\<forall>i < length fs. auditResult (fs ! i) = None \<longrightarrow>
               id_doc (files b ! i) = id_doc (fs ! i) \<and>
               auditResult (files b ! i) \<noteq> None \<and>
               \<not> isProcessing (files b ! i) \<and>
               (\<exists>g \<in> set (filesToProcess fs). id_doc g = id_doc (fs ! i) \<and>
                  (\<exists>extract net now.
                     files b ! i = fst (processFile extract net now rules (g\<lparr>isProcessing := True\<rparr>))))))
       \<and> (\<not> finished b \<longrightarrow> (\<exists>e b'. step rules e b = Some b'))
       \<and> (\<forall>e b'. workerEvent e \<and> step rules e b = Some b' \<longrightarrow> workLeft b' < workLeft b)
       \<and> length es + workLeft b \<le> workLeft (runBatchAudit (idle fs))"
proof (intro conjI impI allI)
  assume fin: "finished b"
  have inv: "batchInv rules fs b" using batchInv_exec[OF batchInv_start we assms(1)] .
  then have tr: "tracked rules fs {} (files b)"
    using finished_no_pending[OF inv fin] by (simp add: batchInv_def)
  then show "length (files b) = length fs" by (simp add: tracked_def list_all2_lengthD)
  fix i assume i: "i < length fs" and un: "auditResult (fs ! i) = None"
  from tr i un have id: "id_doc (files b ! i) = id_doc (fs ! i)" and "settled rules fs (files b ! i)"
    by (auto simp: tracked_def list_all2_conv_all_nth)
  then obtain g where g: "g \<in> set (filesToProcess fs)" "outcomeOf rules g (files b ! i)"
    by (auto simp: settled_def)
  show "id_doc (files b ! i) = id_doc (fs ! i)" by (rule id)
  show "auditResult (files b ! i) \<noteq> None" "\<not> isProcessing (files b ! i)"
    using outcomeOf_props[OF g(2)] by simp_all
  show "\<exists>g \<in> set (filesToProcess fs). id_doc g = id_doc (fs ! i) \<and>
          (\<exists>extract net now.
             files b ! i = fst (processFile extract net now rules (g\<lparr>isProcessing := True\<rparr>)))"
    using g id outcomeOf_props(1)[OF g(2)] by (auto simp: outcomeOf_def)
next
  assume "\<not> finished b" then show "\<exists>e b'. step rules e b = Some b'" by (rule step_progress)
next
  fix e b' assume "workerEvent e \<and> step rules e b = Some b'"
  then show "workLeft b' < workLeft b" using step_decreases by blast
next
  show "length es + workLeft b \<le> workLeft (runBatchAudit (idle fs))" using assms by (rule exec_bound)
qed


section \<open>The concurrency cap\<close>



section \<open>The active rule list\<close>



section \<open>Completion is a frame update\<close>

text \<open>
  C6. The write-back of a processed document keeps the length of the list, leaves every
  document with another id as it is, puts the processed document where the id matches,
  and changes nothing when no document has the id, as after the document's removal.
\<close>

theorem completion_frame:
  "length (complete processed prev) = length prev
   \<and> (\<forall>i < length prev. id_doc (prev ! i) \<noteq> id_doc processed \<longrightarrow> complete processed prev ! i = prev ! i)
   \<and> (\<forall>i < length prev. id_doc (prev ! i) = id_doc processed \<longrightarrow> complete processed prev ! i = processed)
   \<and> (id_doc processed \<notin> id_doc ` set prev \<longrightarrow> complete processed prev = prev)
   \<and> complete processed (removeFile (id_doc processed) prev) = removeFile (id_doc processed) prev
   \<and> files (finish i f processed b) = complete processed (files b)"
proof -
  have "id_doc processed \<notin> id_doc ` set xs \<Longrightarrow> complete processed xs = xs" for xs
    by (induction xs) (auto simp: complete_def)
  moreover have "id_doc processed \<notin> id_doc ` set (removeFile (id_doc processed) prev)"
    by (auto simp: removeFile_def)
  ultimately show ?thesis by (auto simp: complete_def finish_def)
qed

theorem completion_frame_witness:
  "complete (processFile_failed [] (demoDoc ''a'')) [demoDoc ''b'', demoDoc ''c''] = [demoDoc ''b'', demoDoc ''c'']
   \<and> complete (processFile_failed [] (demoDoc ''a'')) [demoDoc ''b'', demoDoc ''a''] ! 0 = demoDoc ''b''"
  using completion_frame[of "processFile_failed [] (demoDoc ''a'')" "[demoDoc ''b'', demoDoc ''c'']"]
    completion_frame[of "processFile_failed [] (demoDoc ''a'')" "[demoDoc ''b'', demoDoc ''a'']"]
  by (simp add: processFile_failed_def demoDoc_def ascii_def)

section \<open>The verdict of a failure\<close>





section \<open>Status coercion\<close>

text \<open>
  C4, as the code has it. Every response of the handler to a POST request carries a
  verdict whose status is one of PASS, FAIL, WARNING and ERROR, and it is ERROR exactly
  when the \<^verbatim>\<open>try\<close> block throws. When the model's answer parses, the status is the
  coercion of its \<open>overallStatus\<close>: FAIL and WARNING are kept, and every other value,
  also a missing one, becomes PASS.
\<close>

theorem status_coercion:
  "(method = POST \<longrightarrow>
      (\<exists>r. body (handler method apiKey ai now docContent rules) = VerdictBody r
          \<and> status r \<in> {PASS, FAIL, WARNING, ERROR}
          \<and> (status r = ERROR \<longleftrightarrow> (\<exists>m. askUpstream apiKey ai docContent rules = Inl m))))
   \<and> (askUpstream apiKey ai docContent rules = Inr parsed \<longrightarrow>
        body (handler POST apiKey ai now docContent rules) = VerdictBody (successBody parsed now)
        \<and> status (successBody parsed now) = coerceStatus (overallStatus parsed))
   \<and> coerceStatus (Some (ascii ''FAIL'')) = FAIL
   \<and> coerceStatus (Some (ascii ''WARNING'')) = WARNING
   \<and> (s \<noteq> Some (ascii ''FAIL'') \<and> s \<noteq> Some (ascii ''WARNING'') \<longrightarrow> coerceStatus s = PASS)"
proof -
  have "ascii ''FAIL'' \<noteq> ascii ''WARNING''" by (simp add: ascii_def)
  then show ?thesis
    by (auto simp: handler_def successBody_def failureBody_def coerceStatus_def split: sum.splits)
qed

theorem status_coercion_witness:
  "Some (ascii ''PASSED'') \<noteq> Some (ascii ''FAIL'') \<and> Some (ascii ''PASSED'') \<noteq> Some (ascii ''WARNING'')
   \<and> coerceStatus (Some (ascii ''PASSED'')) = PASS
   \<and> askUpstream None (\<lambda>_ _. UpstreamNoContent) [] [] = Inl MSG_NO_KEY
   \<and> (\<exists>r. body (handler POST None (\<lambda>_ _. UpstreamNoContent) [] [] []) = VerdictBody r \<and> status r = ERROR)
   \<and> askUpstream (Some (ascii ''key'')) (\<lambda>_ _. ContentParsed (demoParsed ''WARNING'')) [] []
       = Inr (demoParsed ''WARNING'')
   \<and> body (handler POST (Some (ascii ''key'')) (\<lambda>_ _. ContentParsed (demoParsed ''WARNING'')) [] [] [])
       = VerdictBody (successBody (demoParsed ''WARNING'') [])
   \<and> status (successBody (demoParsed ''WARNING'') []) = WARNING"
proof -
  have 3: "Some (ascii ''PASSED'') \<noteq> Some (ascii ''FAIL'') \<and> Some (ascii ''PASSED'') \<noteq> Some (ascii ''WARNING'')"
    by (simp add: ascii_def)
  have 4: "askUpstream None (\<lambda>_ _. UpstreamNoContent) [] [] = Inl MSG_NO_KEY"
    by (simp add: askUpstream_def)
  have 5: "askUpstream (Some (ascii ''key'')) (\<lambda>_ _. ContentParsed (demoParsed ''WARNING'')) [] []
       = Inr (demoParsed ''WARNING'')"
    by (simp add: askUpstream_def ascii_def MAX_CONTENT_LENGTH_def)
  have a: "coerceStatus (Some (ascii ''PASSED'')) = PASS"
    using 3 status_coercion[of POST None "\<lambda>_ _. UpstreamNoContent" "[]" "[]" "[]"
          "demoParsed ''FAIL''" "Some (ascii ''PASSED'')"]
    by blast
  have b: "\<exists>r. body (handler POST None (\<lambda>_ _. UpstreamNoContent) [] [] []) = VerdictBody r \<and> status r = ERROR"
    using 4 status_coercion[of POST None "\<lambda>_ _. UpstreamNoContent" "[]" "[]" "[]"
          "demoParsed ''FAIL''" "Some (ascii ''PASSED'')"]
    by blast
  have c: "body (handler POST (Some (ascii ''key'')) (\<lambda>_ _. ContentParsed (demoParsed ''WARNING'')) [] [] [])
       = VerdictBody (successBody (demoParsed ''WARNING'') [])
     \<and> status (successBody (demoParsed ''WARNING'') []) = coerceStatus (overallStatus (demoParsed ''WARNING''))
     \<and> coerceStatus (Some (ascii ''WARNING'')) = WARNING"
    using 5 status_coercion[of POST "Some (ascii ''key'')" "\<lambda>_ _. ContentParsed (demoParsed ''WARNING'')"
          "[]" "[]" "[]" "demoParsed ''WARNING''" "Some (ascii ''PASSED'')"]
    by blast
  have d: "overallStatus (demoParsed ''WARNING'') = Some (ascii ''WARNING'')" by (simp add: demoParsed_def)
  show ?thesis using 3 4 5 a b c d by simp
qed

text \<open>
  C4 as stated fails for an unrecognized status: the answer \<open>UNKNOWN\<close> is returned as
  PASS, the least conservative of the values.
\<close>

theorem status_coercion_counterexample:
  "body (handler POST (Some (ascii ''key'')) (\<lambda>_ _. ContentParsed (demoParsed ''UNKNOWN'')) [] [] [])
   = VerdictBody \<lparr>status = PASS, summary = MSG_NO_SUMMARY, issues = [], processedAt = []\<rparr>"
  by (simp add: handler_def askUpstream_def successBody_def coerceStatus_def demoParsed_def
      ascii_def MAX_CONTENT_LENGTH_def)

section \<open>Extraction is memoized\<close>

lemma extractedIds_append: "extractedIds (cs @ ds) = extractedIds cs @ extractedIds ds"
  by (induction cs rule: extractedIds.induct) simp_all

text \<open>
  Processing a document whose content is populated makes the judgment call only and
  returns the same content, and a worker that takes such a document goes to the
  judgment call without a call to the extractor.
\<close>

lemma populated_content_not_extracted:
  "(content d \<noteq> [] \<longrightarrow>
      snd (processFile extract net now rules d) = [JudgeCall (content d) (activeRuleTexts rules)]
      \<and> content (fst (processFile extract net now rules d)) = content d)
   \<and> (step rules (Wake i) b = Some b' \<and> queue b = f # q \<and> content f \<noteq> [] \<longrightarrow>
        workers b' ! i = Judging f (content f) \<and> extractedIds (calls b') = extractedIds (calls b))"
proof (intro conjI impI)
  assume "content d \<noteq> []"
  then show "snd (processFile extract net now rules d) = [JudgeCall (content d) (activeRuleTexts rules)]"
    "content (fst (processFile extract net now rules d)) = content d"
    by (simp_all add: processFile_def processFile_judged_def)
next
  assume a: "step rules (Wake i) b = Some b' \<and> queue b = f # q \<and> content f \<noteq> []"
  then have i: "i < length (workers b)" and b': "b' = wake rules i b"
    by (simp_all split: if_splits)
  have "wake rules i b = b\<lparr>queue := q, workers := (workers b)[i := Judging f (content f)],
      calls := calls b @ [(id_doc f, JudgeCall (content f) (activeRuleTexts rules))],
      taken := taken b @ [(i, f)]\<rparr>"
    using a by (simp add: wake_def)
  then show "workers b' ! i = Judging f (content f)" "extractedIds (calls b') = extractedIds (calls b)"
    using i by (simp_all add: b' extractedIds_append)
qed

text \<open>
  C7 fails on the code, in its second half. The document below is extracted to the empty
  string, which \<^verbatim>\<open>processFile\<close> takes for content not yet extracted. In the first
  run the worker extracts it and writes its verdict; the user has clicked the preview
  button in between, and the write-back of the preview handler, which comes last, puts
  the document of the click in place again: no verdict, empty content. The second run
  offers the document again, and its worker calls the extractor for it a second time.
  The document was not replaced: it is the same file under the same id.
\<close>

theorem extraction_memoized_failing_input:
  "map_option calls (sessions previewRounds (idle [demoDoc ''a'']))
     = Some [(ascii ''a'', ExtractCall (file_doc (demoDoc ''a''))),
             (ascii ''a'', JudgeCall [] []),
             (ascii ''a'', ExtractCall (file_doc (demoDoc ''a'')))]
   \<and> map_option (extractedIds \<circ> calls) (sessions previewRounds (idle [demoDoc ''a'']))
     = Some [ascii ''a'', ascii ''a'']
   \<and> count_list [ascii ''a'', ascii ''a''] (ascii ''a'') = 2"
  by (simp add: run_simps previewRounds_def activeRuleTexts_def)

section \<open>Adding files with colliding names\<close>

text \<open>
  C8 fails on the code. Two files with one name added in one upload both become
  documents, whether the name is new or tracked: nothing compares the added files with
  each other, and the filter before the insertion runs over the earlier documents only.
  A single added file does replace the tracked document of its name.
\<close>

theorem name_dedup_failing_input:
  "docNames (processNewFiles (\<lambda>_. True) (\<lambda>k. [k]) [] [demoFile ''a.docx'' 1, demoFile ''a.docx'' 2])
     = [ascii ''a.docx'', ascii ''a.docx'']
   \<and> \<not> distinct (docNames (processNewFiles (\<lambda>_. True) (\<lambda>k. [k]) []
            [demoFile ''a.docx'' 1, demoFile ''a.docx'' 2]))
   \<and> map file_doc (processNewFiles (\<lambda>_. True) (\<lambda>k. [k]) [newDocFile (ascii ''old'') (demoFile ''a.docx'' 0)]
            [demoFile ''a.docx'' 1, demoFile ''a.docx'' 2])
     = [demoFile ''a.docx'' 1, demoFile ''a.docx'' 2]
   \<and> map file_doc (processNewFiles (\<lambda>_. True) (\<lambda>k. [k]) [newDocFile (ascii ''old'') (demoFile ''a.docx'' 0)]
            [demoFile ''a.docx'' 1])
     = [demoFile ''a.docx'' 1]"
  by (simp add: processNewFiles_def docNames_def newDocFile_def demoFile_def removeFile_def ascii_def)

section \<open>Rule import is all or nothing\<close>

text \<open>
  C9. A sheet with fewer than two rows is rejected. A sheet whose first row does not
  hold the two required labels in its first two cells (each cell compared after
  \<^verbatim>\<open>trim\<close>, as the code reads it) is rejected, with the header error or, for a cell
  that is not a string, the parse error. On every error the rule list is left as it
  was; the rule list changes only by appending all the rules of a successful import.
\<close>

theorem import_rejection:
  "(length jsonData < 2 \<longrightarrow> parseRulesFile mkId (JsonData jsonData) = Inl EmptyOrMalformed)
   \<and> (2 \<le> length jsonData \<and>
        (optTrim (cellAt (hd jsonData) 0) \<noteq> Inr (Some HEADER_TYPE)
         \<or> optTrim (cellAt (hd jsonData) 1) \<noteq> Inr (Some HEADER_CONTENT)) \<longrightarrow>
        parseRulesFile mkId (JsonData jsonData) = Inl BadHeader
        \<or> parseRulesFile mkId (JsonData jsonData) = Inl ParseFailed)
   \<and> (parseRulesFile mkId s = Inl err \<longrightarrow> handleRuleImport mkId s prev = (prev, Inl err))
   \<and> (fst (handleRuleImport mkId s prev) \<noteq> prev \<longrightarrow>
        (\<exists>imported. parseRulesFile mkId s = Inr imported \<and> imported \<noteq> []
            \<and> fst (handleRuleImport mkId s prev) = prev @ imported))"
proof (intro conjI impI)
  assume "length jsonData < 2"
  then show "parseRulesFile mkId (JsonData jsonData) = Inl EmptyOrMalformed" by simp
next
  assume a: "2 \<le> length jsonData \<and>
        (optTrim (cellAt (hd jsonData) 0) \<noteq> Inr (Some HEADER_TYPE)
         \<or> optTrim (cellAt (hd jsonData) 1) \<noteq> Inr (Some HEADER_CONTENT))"
  then have "checkHeader (hd jsonData) = Inl BadHeader \<or> checkHeader (hd jsonData) = Inl ParseFailed"
    unfolding checkHeader_def
    by (cases "cellAt (hd jsonData) 0"; cases "cellAt (hd jsonData) 1") (auto split: sum.splits)
  with a show "parseRulesFile mkId (JsonData jsonData) = Inl BadHeader
        \<or> parseRulesFile mkId (JsonData jsonData) = Inl ParseFailed"
    by auto
next
  assume "parseRulesFile mkId s = Inl err"
  then show "handleRuleImport mkId s prev = (prev, Inl err)" by (simp add: handleRuleImport_def)
next
  assume "fst (handleRuleImport mkId s prev) \<noteq> prev"
  then show "\<exists>imported. parseRulesFile mkId s = Inr imported \<and> imported \<noteq> []
            \<and> fst (handleRuleImport mkId s prev) = prev @ imported"
    by (cases "parseRulesFile mkId s") (auto simp: handleRuleImport_def)
qed

theorem import_rejection_witness:
  "2 \<le> length (demoRows ''type'' ''content'')
   \<and> optTrim (cellAt (hd (demoRows ''type'' ''content'')) 0) \<noteq> Inr (Some HEADER_TYPE)
   \<and> parseRulesFile (\<lambda>i. [i]) (JsonData (demoRows ''type'' ''content'')) = Inl BadHeader
   \<and> handleRuleImport (\<lambda>i. [i]) (JsonData (demoRows ''type'' ''content'')) [demoRule ''A'' True]
       = ([demoRule ''A'' True], Inl BadHeader)
   \<and> length [[Str HEADER_TYPE, Str HEADER_CONTENT]] < 2
   \<and> parseRulesFile (\<lambda>i. [i]) (JsonData [[Str HEADER_TYPE, Str HEADER_CONTENT]]) = Inl EmptyOrMalformed"
proof -
  have n: "2 \<le> length (demoRows ''type'' ''content'')" by (simp add: demoRows_def)
  have t: "optTrim (cellAt (hd (demoRows ''type'' ''content'')) 0) \<noteq> Inr (Some HEADER_TYPE)"
    by (simp add: demoRows_def cellAt_def trim_def isWhiteSpace_def ascii_def HEADER_TYPE_def)
  have p: "parseRulesFile (\<lambda>i. [i]) (JsonData (demoRows ''type'' ''content'')) \<noteq> Inl ParseFailed"
    by (simp add: demoRows_def checkHeader_def cellAt_def trim_def isWhiteSpace_def ascii_def HEADER_TYPE_def)
  have h: "parseRulesFile (\<lambda>i. [i]) (JsonData (demoRows ''type'' ''content'')) = Inl BadHeader"
    using n t p import_rejection[of "demoRows ''type'' ''content''" "\<lambda>i. [i]"
        "JsonData (demoRows ''type'' ''content'')" BadHeader "[demoRule ''A'' True]"]
    by blast
  have r: "handleRuleImport (\<lambda>i. [i]) (JsonData (demoRows ''type'' ''content'')) [demoRule ''A'' True]
       = ([demoRule ''A'' True], Inl BadHeader)"
    using h import_rejection[of "demoRows ''type'' ''content''" "\<lambda>i. [i]"
        "JsonData (demoRows ''type'' ''content'')" BadHeader "[demoRule ''A'' True]"]
    by blast
  have l: "length [[Str HEADER_TYPE, Str HEADER_CONTENT]] < 2" by simp
  have e: "parseRulesFile (\<lambda>i. [i]) (JsonData [[Str HEADER_TYPE, Str HEADER_CONTENT]]) = Inl EmptyOrMalformed"
    using l import_rejection[of "[[Str HEADER_TYPE, Str HEADER_CONTENT]]" "\<lambda>i. [i]"
        "JsonData (demoRows ''type'' ''content'')" BadHeader "[demoRule ''A'' True]"]
    by blast
  show ?thesis using n t h r l e by blast
qed

section \<open>CSV escaping\<close>

lemma foldl_rows: "foldl (\<lambda>acc x. acc @ g x @ [n]) a xs = a @ concat (map (\<lambda>x. g x @ [n]) xs)"
  by (induction xs arbitrary: a) simp_all

text \<open>
  C10. A field is wrapped in quotes, with its quotes doubled, exactly when it holds a
  comma, a quote or a newline, and is emitted as it is otherwise; every field of a row is
  emitted through this function; the table has one row per issue, or one placeholder row
  when there are no issues.
\<close>

theorem csv_escaping:
  "escape t = (if COMMA \<in> set t \<or> QUOTE \<in> set t \<or> NEWLINE \<in> set t
               then [QUOTE] @ doubleQuotes t @ [QUOTE] else t)
   \<and> issueRow d r issue =
       joinWith COMMA (map escape [name (file_doc d), statusLabel (status r), summary r,
          categoryLabel (category issue), rule issue, description issue,
          severityLabel (severity issue), locationOrEmpty issue])
   \<and> placeholderRow d r =
       joinWith COMMA (map escape [name (file_doc d), statusLabel (status r), summary r] @ [[], [], [], [], []])
   \<and> (auditResult d = Some r \<longrightarrow>
        exportToCSV d = Some (BOM @ CSV_HEADER @ concat (map (\<lambda>line. line @ [NEWLINE]) (csvRows d r)))
        \<and> length (csvRows d r) = max 1 (length (issues r)))"
proof -
  have 1: "escape t = (if COMMA \<in> set t \<or> QUOTE \<in> set t \<or> NEWLINE \<in> set t
               then [QUOTE] @ doubleQuotes t @ [QUOTE] else t)"
    by (cases t) (simp_all add: escape_def)
  have 2: "issueRow d r issue =
       joinWith COMMA (map escape [name (file_doc d), statusLabel (status r), summary r,
          categoryLabel (category issue), rule issue, description issue,
          severityLabel (severity issue), locationOrEmpty issue])"
    by (simp add: issueRow_def commonData_def)
  have 3: "placeholderRow d r =
       joinWith COMMA (map escape [name (file_doc d), statusLabel (status r), summary r] @ [[], [], [], [], []])"
    by (simp add: placeholderRow_def commonData_def ascii_def COMMA_def escape_def)
  have 4: "exportToCSV d = Some (BOM @ CSV_HEADER @ concat (map (\<lambda>line. line @ [NEWLINE]) (csvRows d r)))
        \<and> length (csvRows d r) = max 1 (length (issues r))" if "auditResult d = Some r"
    using that by (cases "issues r") (simp_all add: exportToCSV_def csvRows_def foldl_rows comp_def)
  show ?thesis using 1 2 3 4 by blast
qed

theorem csv_escaping_witness:
  \<open>escape (ascii ''He said, "ok"'') = ascii ''"He said, ""ok"""''
   \<and> escape (ascii ''plain'') = ascii ''plain''
   \<and> auditResult demoJudged = Some demoPass
   \<and> length (csvRows demoJudged demoPass) = 1
   \<and> exportToCSV demoJudged
       = Some (BOM @ CSV_HEADER @ ascii ''a.docx,'' @ [36890, 36807] @ ascii '',ok,,,,,'' @ [NEWLINE])\<close>
proof -
  have 1: \<open>escape (ascii ''He said, "ok"'') = ascii ''"He said, ""ok"""''
      \<and> escape (ascii ''plain'') = ascii ''plain''\<close>
    using csv_escaping[of \<open>ascii ''He said, "ok"''\<close> demoJudged demoPass]
      csv_escaping[of "ascii ''plain''" demoJudged demoPass]
    by (simp add: ascii_def COMMA_def QUOTE_def NEWLINE_def doubleQuotes_def)
  have a: "auditResult demoJudged = Some demoPass" by (simp add: demoJudged_def)
  have 2: "exportToCSV demoJudged
        = Some (BOM @ CSV_HEADER @ concat (map (\<lambda>line. line @ [NEWLINE]) (csvRows demoJudged demoPass)))
      \<and> length (csvRows demoJudged demoPass) = max 1 (length (issues demoPass))"
    using a csv_escaping[of "ascii ''plain''" demoJudged demoPass] by blast
  have 3: "csvRows demoJudged demoPass = [ascii ''a.docx,'' @ [36890, 36807] @ ascii '',ok,,,,,'']"
    by (simp add: csvRows_def placeholderRow_def commonData_def demoJudged_def demoPass_def
        demoDoc_def statusLabel_def escape_def ascii_def COMMA_def QUOTE_def NEWLINE_def)
  show ?thesis using 1 a 2 3 by (simp add: demoPass_def)
qed

end
